theory Spec2Isabelle
  imports Main
begin

section \<open>Values, objects and the heap\<close>

text \<open>
  The module \<^verbatim>\<open>src/core/utils-core.js\<close> works on arbitrary JavaScript values.
  A value is a primitive, a host function, or a reference to an object of the heap.
  Numbers are modelled by integers (no NaN, no fractions). A host function
  (\<^verbatim>\<open>getContext\<close>, \<^verbatim>\<open>getExtension\<close>) is given by the table of its results, indexed
  by its first (string) argument; an argument outside the table yields \<^verbatim>\<open>null\<close>.
\<close>

datatype jsval =
    VUndefined
  | VNull
  | VBool bool
  | VNum int
  | VStr string
  | VFun "(string \<times> jsval) list"
  | VRef nat

text \<open>
  The kind of an object stands for its internal slots: its prototype and whether it
  is extensible. The prototype is one of the language's or the host's: that of plain
  objects, of arrays, of the instances of a class or of the elements of the host (one
  that defines none of the members named in this theory), of WebGL contexts (the only
  one with an own \<^verbatim>\<open>getExtension\<close>), or none, as after \<^verbatim>\<open>Object.create(null)\<close>. The first
  five kinds are extensible objects; \<open>Locked l p\<close> is an object with prototype \<open>p\<close> after
  \<^verbatim>\<open>Object.preventExtensions\<close>, \<^verbatim>\<open>Object.seal\<close> or \<^verbatim>\<open>Object.freeze\<close>. The model has no
  object whose prototype is another object of the heap.
\<close>

datatype proto = ObjectProto | ArrayProto | ClassProto | WebGlProto | NoProto

datatype lock = NonExtensible | Sealed | Frozen

datatype okind =
    PlainObject
  | ArrayObject
  | ClassInstance
  | WebGlContext
  | NullProto
  | Locked lock proto

fun proto_of :: "okind \<Rightarrow> proto" where
  "proto_of PlainObject = ObjectProto"
| "proto_of ArrayObject = ArrayProto"
| "proto_of ClassInstance = ClassProto"
| "proto_of WebGlContext = WebGlProto"
| "proto_of NullProto = NoProto"
| "proto_of (Locked l p) = p"

fun lock_of :: "okind \<Rightarrow> lock option" where
  "lock_of (Locked l p) = Some l"
| "lock_of k = None"

text \<open>
  \<open>props\<close> lists the own enumerable data properties of the object in enumeration order
  (the order of \<^verbatim>\<open>for ... in\<close>).
\<close>

record obj =
  kind :: okind
  props :: "(string \<times> jsval) list"

type_synonym heap = "obj list"

datatype js_error =
    TypeError
  | InvalidCanvas jsval
  | Thrown string
  | ReferenceError
  | BadRef

text \<open>
  \<open>TypeError\<close> is the error the language raises (a member read on \<^verbatim>\<open>null\<close> or
  \<^verbatim>\<open>undefined\<close>, a call of something that is not a function, a class constructor called
  without \<^verbatim>\<open>new\<close>, a write that a locked object refuses: the code of a class body is
  strict). \<open>InvalidCanvas v\<close> is the \<^verbatim>\<open>throw new Error('Invalid canvas object - ' + v)\<close>
  of \<^verbatim>\<open>initWebGl\<close>; \<open>Thrown s\<close> is \<^verbatim>\<open>throw s\<close> for a string \<open>s\<close>; \<open>ReferenceError\<close>
  is raised by naming \<^verbatim>\<open>document\<close> where the host has none. \<open>BadRef\<close> is no
  behaviour of the language: it marks a reference that points outside the heap.
\<close>

text \<open>
  The outcome of a call that may recurse without bound: \<open>OutOfFuel\<close> when it has not
  returned within the depth allowed, \<open>OutsideModel\<close> when it reached a step that would
  make another object of the heap, or a function, the prototype or the target of a
  write, which the model does not represent.
\<close>

datatype 'a outcome = OutOfFuel | OutsideModel | Throw js_error heap | Return 'a heap

definition has_own :: "obj \<Rightarrow> string \<Rightarrow> bool" where
  "has_own ob k = (k \<in> set (map fst (props ob)))"

definition own_keys :: "obj \<Rightarrow> string list" where
  "own_keys ob = map fst (props ob)"

fun upd_assoc :: "(string \<times> jsval) list \<Rightarrow> string \<Rightarrow> jsval \<Rightarrow> (string \<times> jsval) list" where
  "upd_assoc [] k v = [(k, v)]"
| "upd_assoc ((k', v') # ps) k v =
     (if k' = k then (k, v) # ps else (k', v') # upd_assoc ps k v)"

text \<open>
  The store of a property: an existing property keeps its place, a new one goes
  last.
\<close>

definition set_prop :: "heap \<Rightarrow> nat \<Rightarrow> string \<Rightarrow> jsval \<Rightarrow> heap" where
  "set_prop h a k v =
     (if a < length h then h[a := (h ! a)\<lparr>props := upd_assoc (props (h ! a)) k v\<rparr>] else h)"

text \<open>The removal of a property.\<close>

definition delete_prop :: "heap \<Rightarrow> nat \<Rightarrow> string \<Rightarrow> heap" where
  "delete_prop h a k =
     (if a < length h
      then h[a := (h ! a)\<lparr>props := filter (\<lambda>p. fst p \<noteq> k) (props (h ! a))\<rparr>]
      else h)"

text \<open>\<^verbatim>\<open>obj[k]\<close> for an object of the heap: a missing property reads as \<^verbatim>\<open>undefined\<close>.\<close>

definition get_prop :: "heap \<Rightarrow> nat \<Rightarrow> string \<Rightarrow> jsval" where
  "get_prop h a k =
     (if a < length h
      then (case map_of (props (h ! a)) k of Some v \<Rightarrow> v | None \<Rightarrow> VUndefined)
      else VUndefined)"

text \<open>Truthiness, as \<^verbatim>\<open>&&\<close>, \<^verbatim>\<open>||\<close>, \<^verbatim>\<open>!\<close> and \<^verbatim>\<open>Boolean\<close> read a value.\<close>

fun truthy :: "jsval \<Rightarrow> bool" where
  "truthy VUndefined = False"
| "truthy VNull = False"
| "truthy (VBool b) = b"
| "truthy (VNum n) = (n \<noteq> 0)"
| "truthy (VStr s) = (s \<noteq> [])"
| "truthy (VFun f) = True"
| "truthy (VRef a) = True"

text \<open>The call of a host function with its first argument.\<close>

definition apply_fun :: "(string \<times> jsval) list \<Rightarrow> string \<Rightarrow> jsval" where
  "apply_fun f x = (case map_of f x of Some v \<Rightarrow> v | None \<Rightarrow> VNull)"

section \<open>Members, writes and deletions\<close>

text \<open>
  The members \<^verbatim>\<open>hasOwnProperty\<close>, \<^verbatim>\<open>constructor\<close> and \<^verbatim>\<open>__proto__\<close> of an object: an own
  property of that name hides the one of \<^verbatim>\<open>Object.prototype\<close>, which every prototype
  of the model passes on; an object without prototype has none.
\<close>

datatype member = Own jsval | Inherited | Absent

definition find_member :: "obj \<Rightarrow> string \<Rightarrow> member" where
  "find_member ob k =
     (case map_of (props ob) k of
        Some v \<Rightarrow> Own v
      | None \<Rightarrow> if proto_of (kind ob) = NoProto then Absent else Inherited)"

text \<open>
  \<^verbatim>\<open>obj.hasOwnProperty(k)\<close>, a call of whatever the member is: a TypeError when the
  member is missing or is no function.
\<close>

definition call_hasOwnProperty :: "heap \<Rightarrow> nat \<Rightarrow> string \<Rightarrow> js_error + bool" where
  "call_hasOwnProperty h a k =
     (case find_member (h ! a) ''hasOwnProperty'' of
        Own (VFun f) \<Rightarrow> Inr (truthy (apply_fun f k))
      | Own _ \<Rightarrow> Inl TypeError
      | Inherited \<Rightarrow> Inr (has_own (h ! a) k)
      | Absent \<Rightarrow> Inl TypeError)"

text \<open>
  The constructor a prototype passes on, called as a plain function: \<^verbatim>\<open>Object()\<close> and
  \<^verbatim>\<open>Array()\<close> return a fresh empty object or array; the constructor of a class or of a
  host object raises a TypeError when called without \<^verbatim>\<open>new\<close>.
\<close>

fun construct :: "proto \<Rightarrow> okind option" where
  "construct ObjectProto = Some PlainObject"
| "construct ArrayProto = Some ArrayObject"
| "construct ClassProto = None"
| "construct WebGlProto = None"
| "construct NoProto = None"

text \<open>
  \<^verbatim>\<open>obj.constructor()\<close>, a call of whatever the member is: the value it returns and the
  heap, where the language's constructors have allocated the new object.
\<close>

definition call_constructor :: "heap \<Rightarrow> nat \<Rightarrow> js_error + jsval \<times> heap" where
  "call_constructor h a =
     (case find_member (h ! a) ''constructor'' of
        Own (VFun f) \<Rightarrow> Inr (apply_fun f [], h)
      | Own _ \<Rightarrow> Inl TypeError
      | Inherited \<Rightarrow>
          (case construct (proto_of (kind (h ! a))) of
             None \<Rightarrow> Inl TypeError
           | Some k \<Rightarrow> Inr (VRef (length h), h @ [\<lparr>kind = k, props = []\<rparr>]))
      | Absent \<Rightarrow> Inl TypeError)"

text \<open>
  \<^verbatim>\<open>obj[k] = v\<close> in strict code, for a data property: a frozen object refuses the
  change of a property, an object that is not extensible refuses a new one.
\<close>

definition write_prop :: "heap \<Rightarrow> nat \<Rightarrow> string \<Rightarrow> jsval \<Rightarrow> js_error + heap" where
  "write_prop h a k v =
     (if a < length h then
        (if has_own (h ! a) k then
           (if lock_of (kind (h ! a)) = Some Frozen then Inl TypeError
            else Inr (set_prop h a k v))
         else
           (if lock_of (kind (h ! a)) = None then Inr (set_prop h a k v)
            else Inl TypeError))
      else Inl BadRef)"

text \<open>
  \<^verbatim>\<open>delete obj[k]\<close> in strict code: a sealed or frozen object refuses to lose a
  property; deleting a property the object does not have changes nothing.
\<close>

definition delete_own :: "heap \<Rightarrow> nat \<Rightarrow> string \<Rightarrow> js_error + heap" where
  "delete_own h a k =
     (if a < length h then
        (if has_own (h ! a) k then
           (case lock_of (kind (h ! a)) of
              Some Sealed \<Rightarrow> Inl TypeError
            | Some Frozen \<Rightarrow> Inl TypeError
            | _ \<Rightarrow> Inr (delete_prop h a k))
         else Inr h)
      else Inl BadRef)"

text \<open>
  \<^verbatim>\<open>temp[k] = v\<close> in strict code, for whatever \<^verbatim>\<open>temp\<close> is. On an object that takes
  \<^verbatim>\<open>__proto__\<close> from \<^verbatim>\<open>Object.prototype\<close>, the key \<^verbatim>\<open>__proto__\<close> is no property: writing
  \<^verbatim>\<open>null\<close> removes the prototype, writing an object or a function would replace it
  (\<open>Unmodelled\<close>), writing anything else does nothing, and an object that is not
  extensible refuses the change. A write to \<^verbatim>\<open>null\<close>, \<^verbatim>\<open>undefined\<close>, a boolean, a number or
  a string raises a TypeError; a write to a function is \<open>Unmodelled\<close>.
\<close>

datatype write_result = Written heap | Failed js_error | Unmodelled

definition assign_temp :: "heap \<Rightarrow> jsval \<Rightarrow> string \<Rightarrow> jsval \<Rightarrow> write_result" where
  "assign_temp h temp k v =
     (case temp of
        VRef t \<Rightarrow>
          (if t < length h then
             (if k = ''__proto__'' \<and> find_member (h ! t) k = Inherited then
                (case v of
                   VNull \<Rightarrow>
                     (if lock_of (kind (h ! t)) = None
                      then Written (h[t := (h ! t)\<lparr>kind := NullProto\<rparr>])
                      else Failed TypeError)
                 | VRef c \<Rightarrow>
                     (if lock_of (kind (h ! t)) = None then Unmodelled else Failed TypeError)
                 | VFun f \<Rightarrow>
                     (if lock_of (kind (h ! t)) = None then Unmodelled else Failed TypeError)
                 | _ \<Rightarrow> Written h)
              else
                (case write_prop h t k v of
                   Inl e \<Rightarrow> Failed e
                 | Inr h' \<Rightarrow> Written h'))
           else Failed BadRef)
      | VFun f \<Rightarrow> Unmodelled
      | _ \<Rightarrow> Failed TypeError)"

section \<open>clone\<close>

text \<open>
  \<^verbatim>\<open>
  static clone(obj) {
    if (obj === null || typeof obj !== 'object' || obj.hasOwnProperty('isActiveClone')) return obj;
    const temp = obj.constructor(); // changed
    for (let key in obj) {
      if (Object.prototype.hasOwnProperty.call(obj, key)) {
        obj.isActiveClone = null;
        temp[key] = UtilsCore.clone(obj[key]);
        delete obj.isActiveClone;
      }
    }
    return temp;
  }
  \<close>
  The recursion follows the object graph, which may be cyclic, so the model carries
  fuel: the depth of recursive calls still allowed. The keys of the loop are those the
  object has when the loop starts; a key that is no longer a property of the object
  when its turn comes is passed over. \<open>clone_keys\<close> is the loop: \<open>a\<close> is the address of
  \<^verbatim>\<open>obj\<close>, \<open>temp\<close> the value of \<^verbatim>\<open>temp\<close>. The first test of the function is the call of
  the member \<^verbatim>\<open>hasOwnProperty\<close> of \<^verbatim>\<open>obj\<close>, the test inside the loop is the one of
  \<^verbatim>\<open>Object.prototype\<close>.
\<close>

abbreviation marker :: string where
  "marker \<equiv> ''isActiveClone''"

fun clone :: "nat \<Rightarrow> heap \<Rightarrow> jsval \<Rightarrow> jsval outcome"
  and clone_keys :: "nat \<Rightarrow> heap \<Rightarrow> nat \<Rightarrow> jsval \<Rightarrow> string list \<Rightarrow> jsval outcome" where
  "clone 0 h v = OutOfFuel"
| "clone (Suc n) h v =
     (case v of
        VRef a \<Rightarrow>
          (if a < length h then
             (case call_hasOwnProperty h a marker of
                Inl e \<Rightarrow> Throw e h
              | Inr True \<Rightarrow> Return v h
              | Inr False \<Rightarrow>
                  (case call_constructor h a of
                     Inl e \<Rightarrow> Throw e h
                   | Inr (temp, h0) \<Rightarrow> clone_keys n h0 a temp (own_keys (h ! a))))
           else Throw BadRef h)
      | _ \<Rightarrow> Return v h)"
| "clone_keys n h a temp [] = Return temp h"
| "clone_keys n h a temp (key # keys) =
     (if a < length h \<and> has_own (h ! a) key then
        (case write_prop h a marker VNull of
           Inl e \<Rightarrow> Throw e h
         | Inr h1 \<Rightarrow>
             (case clone n h1 (get_prop h1 a key) of
                OutOfFuel \<Rightarrow> OutOfFuel
              | OutsideModel \<Rightarrow> OutsideModel
              | Throw e h2 \<Rightarrow> Throw e h2
              | Return v h2 \<Rightarrow>
                  (case assign_temp h2 temp key v of
                     Failed e \<Rightarrow> Throw e h2
                   | Unmodelled \<Rightarrow> OutsideModel
                   | Written h3 \<Rightarrow>
                       (case delete_own h3 a marker of
                          Inl e \<Rightarrow> Throw e h3
                        | Inr h4 \<Rightarrow> clone_keys n h4 a temp keys))))
      else clone_keys n h a temp keys)"

text \<open>
  An object is ordinary when it does not hide the two members \<^verbatim>\<open>clone\<close> calls on it.
\<close>

definition ordinary_obj :: "obj \<Rightarrow> bool" where
  "ordinary_obj ob = (\<not> has_own ob ''hasOwnProperty'' \<and> \<not> has_own ob ''constructor'')"






section \<open>Finite unfoldings of object graphs\<close>

text \<open>
  A value is acyclic when the object graph below it unfolds to a finite tree. The tree
  records, for each object met, its address, its kind and the subtrees of its
  properties in order; an object never occurs below itself.
\<close>

datatype ltree = LPrim jsval | LObj nat okind lprops
  and lprops = LNil | LCons string ltree lprops

fun is_ref :: "jsval \<Rightarrow> bool" where
  "is_ref (VRef a) = True"
| "is_ref v = False"

primrec addrs :: "ltree \<Rightarrow> nat set" and addrs_props :: "lprops \<Rightarrow> nat set" where
  "addrs (LPrim v) = {}"
| "addrs (LObj a k ps) = insert a (addrs_props ps)"
| "addrs_props LNil = {}"
| "addrs_props (LCons key t ps) = addrs t \<union> addrs_props ps"

primrec keys_of :: "lprops \<Rightarrow> string list" where
  "keys_of LNil = []"
| "keys_of (LCons key t ps) = key # keys_of ps"

primrec depth :: "ltree \<Rightarrow> nat" and depth_props :: "lprops \<Rightarrow> nat" where
  "depth (LPrim v) = 0"
| "depth (LObj a k ps) = Suc (depth_props ps)"
| "depth_props LNil = 0"
| "depth_props (LCons key t ps) = max (depth t) (depth_props ps)"

text \<open>
  \<open>unfolds t h v\<close>: in heap \<open>h\<close> the value \<open>v\<close> unfolds to the tree \<open>t\<close>. A leaf is a
  value that is no object reference.
\<close>

primrec unfolds :: "ltree \<Rightarrow> heap \<Rightarrow> jsval \<Rightarrow> bool"
  and unfolds_props :: "lprops \<Rightarrow> heap \<Rightarrow> (string \<times> jsval) list \<Rightarrow> bool" where
  "unfolds (LPrim p) h v = (v = p \<and> \<not> is_ref v)"
| "unfolds (LObj a k ts) h v =
     (v = VRef a \<and> a < length h \<and> kind (h ! a) = k \<and> a \<notin> addrs_props ts \<and>
      unfolds_props ts h (props (h ! a)))"
| "unfolds_props LNil h ps = (ps = [])"
| "unfolds_props (LCons key t ts) h ps =
     (case ps of
        [] \<Rightarrow> False
      | p # ps' \<Rightarrow> fst p = key \<and> unfolds t h (snd p) \<and> unfolds_props ts h ps')"

text \<open>
  Deep equality compares two unfoldings node by node: equal leaves, equal kinds, equal
  keys in the same order; the addresses are not compared.
\<close>

fun same_shape :: "ltree \<Rightarrow> ltree \<Rightarrow> bool"
  and same_shape_props :: "lprops \<Rightarrow> lprops \<Rightarrow> bool" where
  "same_shape (LPrim v) (LPrim v') = (v = v')"
| "same_shape (LObj a k ts) (LObj a' k' ts') = (k = k' \<and> same_shape_props ts ts')"
| "same_shape (LPrim v) (LObj a' k' ts') = False"
| "same_shape (LObj a k ts) (LPrim v') = False"
| "same_shape_props LNil LNil = True"
| "same_shape_props (LCons key t ts) (LCons key' t' ts') =
     (key = key' \<and> same_shape t t' \<and> same_shape_props ts ts')"
| "same_shape_props LNil (LCons key' t' ts') = False"
| "same_shape_props (LCons key t ts) LNil = False"

text \<open>
  The names that \<^verbatim>\<open>clone\<close> itself uses on an object or on its copy.
\<close>

definition reserved_keys :: "string list" where
  "reserved_keys = [marker, ''hasOwnProperty'', ''constructor'', ''__proto__'']"

text \<open>
  A tree of plain records: every object is an extensible plain object whose keys are
  pairwise distinct and none of which is reserved.
\<close>

primrec plain_tree :: "ltree \<Rightarrow> bool"
  and plain_props :: "lprops \<Rightarrow> bool" where
  "plain_tree (LPrim v) = True"
| "plain_tree (LObj a k ts) =
     (k = PlainObject \<and> distinct (keys_of ts) \<and> set (keys_of ts) \<inter> set reserved_keys = {} \<and>
      plain_props ts)"
| "plain_props LNil = True"
| "plain_props (LCons key t ts) = (plain_tree t \<and> plain_props ts)"

section \<open>Operations of the language\<close>

text \<open>
  The module uses three operations of the language that are no code of its own; they
  are parameters of the model. \<open>json_parse h s\<close> is \<^verbatim>\<open>JSON.parse(s)\<close>: \<open>None\<close>
  when it throws, otherwise the decoded value and the heap holding the objects it
  built. \<open>string_to_number s\<close> is the conversion of a string to a number, \<open>None\<close>
  standing for any result the integers of the model do not have. \<open>to_primitive h a\<close> is
  the conversion of the object at \<open>a\<close> to a primitive, which may raise.
\<close>

record runtime =
  json_parse :: "heap \<Rightarrow> string \<Rightarrow> (jsval \<times> heap) option"
  string_to_number :: "string \<Rightarrow> int option"
  to_primitive :: "heap \<Rightarrow> nat \<Rightarrow> js_error + jsval"

section \<open>Canvas and WebGL probing\<close>

text \<open>
  A member read \<^verbatim>\<open>v.k\<close>, for the members this module reads (\<^verbatim>\<open>nodeName\<close>,
  \<^verbatim>\<open>getContext\<close>, \<^verbatim>\<open>getExtension\<close>, \<^verbatim>\<open>prototype\<close>, \<^verbatim>\<open>isKernelObj\<close>, the extension
  names): it raises on \<^verbatim>\<open>null\<close> and \<^verbatim>\<open>undefined\<close>, reads the property of an object, and
  is \<^verbatim>\<open>undefined\<close> on a boolean, a number, a string or a host function, whose
  prototypes have none of these members.
\<close>

fun get_member :: "heap \<Rightarrow> jsval \<Rightarrow> string \<Rightarrow> js_error + jsval" where
  "get_member h VUndefined k = Inl TypeError"
| "get_member h VNull k = Inl TypeError"
| "get_member h (VRef a) k = (if a < length h then Inr (get_prop h a k) else Inl BadRef)"
| "get_member h v k = Inr VUndefined"

definition upper_char :: "char \<Rightarrow> char" where
  "upper_char c =
     (let n = (of_char c :: nat) in if 97 \<le> n \<and> n \<le> 122 then char_of (n - 32) else c)"

text \<open>
  \<^verbatim>\<open>x.toUpperCase()\<close>: on a string (of ASCII characters) the upper-case string; on an
  object the call of its \<^verbatim>\<open>toUpperCase\<close> member, a TypeError when that is no function;
  a TypeError on anything else, which has no such member.
\<close>

fun toUpperCase :: "heap \<Rightarrow> jsval \<Rightarrow> js_error + jsval" where
  "toUpperCase h (VStr s) = Inr (VStr (map upper_char s))"
| "toUpperCase h (VRef a) =
     (if a < length h then
        (case get_prop h a ''toUpperCase'' of
           VFun f \<Rightarrow> Inr (apply_fun f [])
         | _ \<Rightarrow> Inl TypeError)
      else Inl BadRef)"
| "toUpperCase h v = Inl TypeError"

text \<open>
  \<^verbatim>\<open>
  static isCanvas(canvasObj) {
    return (
      canvasObj !== null &&
      canvasObj.nodeName &&
      canvasObj.getContext &&
      canvasObj.nodeName.toUpperCase() === 'CANVAS'
    );
  }
  \<close>
  \<^verbatim>\<open>a && b\<close> is \<open>a\<close> when \<open>a\<close> is falsy, so the function returns the first falsy
  operand, or the last comparison.
\<close>

definition isCanvas :: "heap \<Rightarrow> jsval \<Rightarrow> js_error + jsval" where
  "isCanvas h canvasObj =
     (if canvasObj = VNull then Inr (VBool False)
      else
        (case get_member h canvasObj ''nodeName'' of
           Inl e \<Rightarrow> Inl e
         | Inr nodeName \<Rightarrow>
             (if \<not> truthy nodeName then Inr nodeName
              else
                (case get_member h canvasObj ''getContext'' of
                   Inl e \<Rightarrow> Inl e
                 | Inr getContext \<Rightarrow>
                     (if \<not> truthy getContext then Inr getContext
                      else
                        (case toUpperCase h nodeName of
                           Inl e \<Rightarrow> Inl e
                         | Inr u \<Rightarrow> Inr (VBool (u = VStr ''CANVAS''))))))))"

text \<open>
  The state of the probing functions: the heap, the calls made to the host so far, and
  the runtime of the language they run on.
\<close>

datatype host_call = GetContext string jsval | GetExtension string

record world =
  heap_of :: heap
  calls :: "host_call list"
  runtime_of :: runtime

text \<open>
  \<^verbatim>\<open>document.createElement('canvas')\<close> allocates a copy of the element the host's
  document produces. \<open>None\<close> is the environment without \<^verbatim>\<open>document\<close>, where naming it
  raises a ReferenceError.
\<close>

definition createElement :: "obj option \<Rightarrow> world \<Rightarrow> js_error + jsval \<times> world" where
  "createElement doc w =
     (case doc of
        None \<Rightarrow> Inl ReferenceError
      | Some el \<Rightarrow> Inr (VRef (length (heap_of w)), w\<lparr>heap_of := heap_of w @ [el]\<rparr>))"

text \<open>
  \<^verbatim>\<open>
  static initCanvas() {
    if (!_isCanvasSupported) { return null; }
    const canvas = document.createElement('canvas');
    canvas.width = 2;
    canvas.height = 2;
    return canvas;
  }
  \<close>
\<close>

definition initCanvas :: "jsval \<Rightarrow> obj option \<Rightarrow> world \<Rightarrow> js_error + jsval \<times> world" where
  "initCanvas isCanvasSupported doc w =
     (if \<not> truthy isCanvasSupported then Inr (VNull, w)
      else
        (case createElement doc w of
           Inl e \<Rightarrow> Inl e
         | Inr (canvas, w1) \<Rightarrow>
             (case canvas of
                VRef a \<Rightarrow>
                  Inr (canvas,
                       w1\<lparr>heap_of :=
                            set_prop (set_prop (heap_of w1) a ''width'' (VNum 2)) a ''height'' (VNum 2)\<rparr>)
              | _ \<Rightarrow> Inl TypeError)))"

text \<open>
  \<^verbatim>\<open>
  static isWebGl(webGlObj) {
    return (
      webGlObj !== null &&
      ( ( webGlObj.__proto__ && webGlObj.__proto__.hasOwnProperty('getExtension') ) ||
        ( webGlObj.prototype && webGlObj.prototype.hasOwnProperty('getExtension') ) )
    );
  }
  \<close>
  \<open>x.hasOwnProperty(k)\<close> is the call of whatever member \<open>x\<close> has; a boolean, a number, a
  string and a host function have that of \<^verbatim>\<open>Object.prototype\<close> and no own property
  \<^verbatim>\<open>getExtension\<close>. \<open>proto_test\<close> is the truth of the first disjunct: \<^verbatim>\<open>__proto__\<close> is
  an own property of the object, or its prototype, or \<^verbatim>\<open>undefined\<close> on an object without
  prototype.
\<close>

fun hasOwnProperty :: "heap \<Rightarrow> jsval \<Rightarrow> string \<Rightarrow> js_error + bool" where
  "hasOwnProperty h (VRef a) k = (if a < length h then call_hasOwnProperty h a k else Inl BadRef)"
| "hasOwnProperty h v k = Inr False"

fun proto_test :: "heap \<Rightarrow> jsval \<Rightarrow> js_error + bool" where
  "proto_test h (VRef a) =
     (if a < length h then
        (case find_member (h ! a) ''__proto__'' of
           Own x \<Rightarrow> if truthy x then hasOwnProperty h x ''getExtension'' else Inr False
         | Inherited \<Rightarrow> Inr (proto_of (kind (h ! a)) = WebGlProto)
         | Absent \<Rightarrow> Inr False)
      else Inl BadRef)"
| "proto_test h v = Inr False"

definition isWebGl :: "heap \<Rightarrow> jsval \<Rightarrow> js_error + jsval" where
  "isWebGl h webGlObj =
     (if webGlObj = VNull then Inr (VBool False)
      else if webGlObj = VUndefined then Inl TypeError
      else
        (case proto_test h webGlObj of
           Inl e \<Rightarrow> Inl e
         | Inr True \<Rightarrow> Inr (VBool True)
         | Inr False \<Rightarrow>
             (case get_member h webGlObj ''prototype'' of
                Inl e \<Rightarrow> Inl e
              | Inr p \<Rightarrow>
                  (if \<not> truthy p then Inr p
                   else
                     (case hasOwnProperty h p ''getExtension'' of
                        Inl e \<Rightarrow> Inl e
                      | Inr b \<Rightarrow> Inr (VBool b))))))"

text \<open>
  \<^verbatim>\<open>
  static initWebGlDefaultOptions() {
    return { alpha: false, depth: false, antialias: false };
  }
  \<close>
\<close>

definition defaultOptions :: obj where
  "defaultOptions =
     \<lparr>kind = PlainObject,
      props = [(''alpha'', VBool False), (''depth'', VBool False), (''antialias'', VBool False)]\<rparr>"

definition initWebGlDefaultOptions :: "world \<Rightarrow> jsval \<times> world" where
  "initWebGlDefaultOptions w =
     (VRef (length (heap_of w)), w\<lparr>heap_of := heap_of w @ [defaultOptions]\<rparr>)"

text \<open>\<^verbatim>\<open>canvasObj.getContext(id, options)\<close> and \<^verbatim>\<open>webGl.getExtension(name)\<close>.\<close>

definition call_getContext :: "world \<Rightarrow> jsval \<Rightarrow> string \<Rightarrow> jsval \<Rightarrow> js_error + jsval \<times> world" where
  "call_getContext w canvasObj ident options =
     (case get_member (heap_of w) canvasObj ''getContext'' of
        Inl e \<Rightarrow> Inl e
      | Inr (VFun f) \<Rightarrow> Inr (apply_fun f ident, w\<lparr>calls := calls w @ [GetContext ident options]\<rparr>)
      | Inr _ \<Rightarrow> Inl TypeError)"

definition call_getExtension :: "world \<Rightarrow> jsval \<Rightarrow> string \<Rightarrow> js_error + jsval \<times> world" where
  "call_getExtension w webGl name =
     (case get_member (heap_of w) webGl ''getExtension'' of
        Inl e \<Rightarrow> Inl e
      | Inr (VFun f) \<Rightarrow> Inr (apply_fun f name, w\<lparr>calls := calls w @ [GetExtension name]\<rparr>)
      | Inr _ \<Rightarrow> Inl TypeError)"

text \<open>\<^verbatim>\<open>webGl[name] = webGl.getExtension(name)\<close>, one line of \<^verbatim>\<open>initWebGl\<close>.\<close>

definition store_extension :: "world \<Rightarrow> jsval \<Rightarrow> string \<Rightarrow> js_error + world" where
  "store_extension w webGl name =
     (case call_getExtension w webGl name of
        Inl e \<Rightarrow> Inl e
      | Inr (ext, w1) \<Rightarrow>
          (case webGl of
             VRef a \<Rightarrow>
               (case write_prop (heap_of w1) a name ext of
                  Inl e \<Rightarrow> Inl e
                | Inr h \<Rightarrow> Inr (w1\<lparr>heap_of := h\<rparr>))
           | _ \<Rightarrow> Inl TypeError))"

text \<open>
  \<^verbatim>\<open>
  static initWebGl(canvasObj) {
    if (typeof _isCanvasSupported !== 'undefined' || canvasObj === null) {
      if (!_isCanvasSupported) { return null; }
    }
    if (!UtilsCore.isCanvas(canvasObj)) {
      throw new Error('Invalid canvas object - ' + canvasObj);
    }
    const webGl = (
      canvasObj.getContext('experimental-webgl', UtilsCore.initWebGlDefaultOptions()) ||
      canvasObj.getContext('webgl', UtilsCore.initWebGlDefaultOptions())
    );
    webGl.OES_texture_float        = webGl.getExtension('OES_texture_float');
    webGl.OES_texture_float_linear = webGl.getExtension('OES_texture_float_linear');
    webGl.OES_element_index_uint   = webGl.getExtension('OES_element_index_uint');
    return webGl;
  }
  \<close>
  The first argument is the module constant \<^verbatim>\<open>_isCanvasSupported\<close>. The message of
  the error is built by \<^verbatim>\<open>'Invalid canvas object - ' + canvasObj\<close>, which converts an
  object to a primitive first: \<open>string_conversion\<close> is the error that conversion
  raises, if any. A value that is no object converts without error.
\<close>

definition string_conversion :: "world \<Rightarrow> jsval \<Rightarrow> js_error option" where
  "string_conversion w v =
     (case v of
        VRef a \<Rightarrow>
          (case to_primitive (runtime_of w) (heap_of w) a of
             Inl e \<Rightarrow> Some e
           | Inr p \<Rightarrow> None)
      | _ \<Rightarrow> None)"

definition acquire :: "world \<Rightarrow> jsval \<Rightarrow> js_error + jsval \<times> world" where
  "acquire w canvasObj =
     (let (o1, w1) = initWebGlDefaultOptions w in
        (case call_getContext w1 canvasObj ''experimental-webgl'' o1 of
           Inl e \<Rightarrow> Inl e
         | Inr (c1, w2) \<Rightarrow>
             (if truthy c1 then Inr (c1, w2)
              else (let (o2, w3) = initWebGlDefaultOptions w2 in
                    call_getContext w3 canvasObj ''webgl'' o2))))"

definition initWebGl :: "jsval \<Rightarrow> world \<Rightarrow> jsval \<Rightarrow> js_error + jsval \<times> world" where
  "initWebGl isCanvasSupported w canvasObj =
     (if (isCanvasSupported \<noteq> VUndefined \<or> canvasObj = VNull) \<and> \<not> truthy isCanvasSupported
      then Inr (VNull, w)
      else
        (case isCanvas (heap_of w) canvasObj of
           Inl e \<Rightarrow> Inl e
         | Inr c \<Rightarrow>
             (if \<not> truthy c then
                (case string_conversion w canvasObj of
                   Some e \<Rightarrow> Inl e
                 | None \<Rightarrow> Inl (InvalidCanvas canvasObj))
              else
                (case acquire w canvasObj of
                   Inl e \<Rightarrow> Inl e
                 | Inr (webGl, w1) \<Rightarrow>
                     (case store_extension w1 webGl ''OES_texture_float'' of
                        Inl e \<Rightarrow> Inl e
                      | Inr w2 \<Rightarrow>
                          (case store_extension w2 webGl ''OES_texture_float_linear'' of
                             Inl e \<Rightarrow> Inl e
                           | Inr w3 \<Rightarrow>
                               (case store_extension w3 webGl ''OES_element_index_uint'' of
                                  Inl e \<Rightarrow> Inl e
                                | Inr w4 \<Rightarrow> Inr (webGl, w4))))))))"

text \<open>
  The module's initialisation:
  \<^verbatim>\<open>
  const _isCanvasSupported = typeof document !== 'undefined'
      ? UtilsCore.isCanvas(document.createElement('canvas')) : false;
  const _testingWebGl = UtilsCore.initWebGl(UtilsCore.initCanvas());
  const _isWebGlSupported = UtilsCore.isWebGl(_testingWebGl);
  const _isWebGlDrawBuffersSupported = Boolean(_testingWebGl.getExtension('WEBGL_draw_buffers'));
  UtilsCore.OES_texture_float         = _testingWebGl.OES_texture_float;
  UtilsCore.OES_texture_float_linear  = _testingWebGl.OES_texture_float_linear;
  UtilsCore.OES_element_index_uint    = _testingWebGl.OES_element_index_uint;
  \<close>
\<close>

record snapshot =
  isCanvasSupported :: jsval
  testingWebGl :: jsval
  isWebGlSupported :: jsval
  isWebGlDrawBuffersSupported :: bool
  OES_texture_float :: jsval
  OES_texture_float_linear :: jsval
  OES_element_index_uint :: jsval

definition probe_canvas :: "obj option \<Rightarrow> world \<Rightarrow> js_error + jsval \<times> world" where
  "probe_canvas doc w =
     (case doc of
        None \<Rightarrow> Inr (VBool False, w)
      | Some el \<Rightarrow>
          (case createElement doc w of
             Inl e \<Rightarrow> Inl e
           | Inr (c, w1) \<Rightarrow>
               (case isCanvas (heap_of w1) c of
                  Inl e \<Rightarrow> Inl e
                | Inr b \<Rightarrow> Inr (b, w1))))"

definition read_extensions :: "jsval \<Rightarrow> jsval \<Rightarrow> jsval \<Rightarrow> bool \<Rightarrow> world \<Rightarrow> js_error + snapshot \<times> world" where
  "read_extensions cs gl glsup db w =
     (case get_member (heap_of w) gl ''OES_texture_float'' of
        Inl e \<Rightarrow> Inl e
      | Inr f \<Rightarrow>
          (case get_member (heap_of w) gl ''OES_texture_float_linear'' of
             Inl e \<Rightarrow> Inl e
           | Inr fl \<Rightarrow>
               (case get_member (heap_of w) gl ''OES_element_index_uint'' of
                  Inl e \<Rightarrow> Inl e
                | Inr ui \<Rightarrow>
                    Inr (\<lparr>isCanvasSupported = cs, testingWebGl = gl, isWebGlSupported = glsup,
                          isWebGlDrawBuffersSupported = db, OES_texture_float = f,
                          OES_texture_float_linear = fl, OES_element_index_uint = ui\<rparr>, w))))"

definition module_init :: "obj option \<Rightarrow> world \<Rightarrow> js_error + snapshot \<times> world" where
  "module_init doc w =
     (case probe_canvas doc w of
        Inl e \<Rightarrow> Inl e
      | Inr (cs, w1) \<Rightarrow>
          (case initCanvas cs doc w1 of
             Inl e \<Rightarrow> Inl e
           | Inr (canvas, w2) \<Rightarrow>
               (case initWebGl cs w2 canvas of
                  Inl e \<Rightarrow> Inl e
                | Inr (gl, w3) \<Rightarrow>
                    (case isWebGl (heap_of w3) gl of
                       Inl e \<Rightarrow> Inl e
                     | Inr glsup \<Rightarrow>
                         (case call_getExtension w3 gl ''WEBGL_draw_buffers'' of
                            Inl e \<Rightarrow> Inl e
                          | Inr (db, w4) \<Rightarrow> read_extensions cs gl glsup (truthy db) w4)))))"

section \<open>validateKernelObj\<close>

text \<open>
  \<^verbatim>\<open>p == true\<close> for a primitive \<open>p\<close>: \<^verbatim>\<open>true\<close> becomes the number 1, a string is
  converted to a number, \<^verbatim>\<open>null\<close> and \<^verbatim>\<open>undefined\<close> equal only each other.
\<close>

fun prim_eq_true :: "runtime \<Rightarrow> jsval \<Rightarrow> bool" where
  "prim_eq_true rt (VBool b) = b"
| "prim_eq_true rt (VNum n) = (n = 1)"
| "prim_eq_true rt (VStr s) = (string_to_number rt s = Some 1)"
| "prim_eq_true rt v = False"

text \<open>
  \<^verbatim>\<open>v == true\<close>: an object is converted to a primitive first. A host function converts
  to its source text, which is no number.
\<close>

fun loose_eq_true :: "runtime \<Rightarrow> heap \<Rightarrow> jsval \<Rightarrow> js_error + bool" where
  "loose_eq_true rt h (VRef a) =
     (case to_primitive rt h a of
        Inl e \<Rightarrow> Inl e
      | Inr p \<Rightarrow> Inr (prim_eq_true rt p))"
| "loose_eq_true rt h v = Inr (prim_eq_true rt v)"

text \<open>
  \<^verbatim>\<open>
  static validateKernelObj(kernelObj) {
    if( kernelObj == null ) {
      throw "KernelObj being validated is NULL";
    }
    if( typeof kernelObj === "string" ) {
      try {
        kernelObj = JSON.parse(kernelObj);
      } catch(e) {
        console.error(e);
        throw "Failed to convert KernelObj from JSON string";
      }
      if( kernelObj == null ) {
        throw "Invalid (NULL) KernelObj JSON string representation";
      }
    }
    if( kernelObj.isKernelObj != true ) {
      throw "Failed missing isKernelObj flag check";
    }
    return kernelObj;
  }
  \<close>
  \<open>check_flag\<close> is the last test and the return. The line written to the console is
  not modelled.
\<close>

definition is_nullish :: "jsval \<Rightarrow> bool" where
  "is_nullish v = (v = VNull \<or> v = VUndefined)"

definition check_flag :: "runtime \<Rightarrow> heap \<Rightarrow> jsval \<Rightarrow> js_error + jsval \<times> heap" where
  "check_flag rt h kernelObj =
     (case get_member h kernelObj ''isKernelObj'' of
        Inl e \<Rightarrow> Inl e
      | Inr flag \<Rightarrow>
          (case loose_eq_true rt h flag of
             Inl e \<Rightarrow> Inl e
           | Inr eq \<Rightarrow>
               (if \<not> eq then Inl (Thrown ''Failed missing isKernelObj flag check'')
                else Inr (kernelObj, h))))"

definition validateKernelObj :: "runtime \<Rightarrow> heap \<Rightarrow> jsval \<Rightarrow> js_error + jsval \<times> heap" where
  "validateKernelObj rt h kernelObj =
     (if is_nullish kernelObj then Inl (Thrown ''KernelObj being validated is NULL'')
      else
        (case kernelObj of
           VStr s \<Rightarrow>
             (case json_parse rt h s of
                None \<Rightarrow> Inl (Thrown ''Failed to convert KernelObj from JSON string'')
              | Some (decoded, h1) \<Rightarrow>
                  (if is_nullish decoded
                   then Inl (Thrown ''Invalid (NULL) KernelObj JSON string representation'')
                   else check_flag rt h1 decoded))
         | _ \<Rightarrow> check_flag rt h kernelObj))"

section \<open>Sample heaps and hosts\<close>

text \<open>Concrete inputs, on which the theorems below are instantiated.\<close>

definition self_heap :: heap where
  "self_heap = [\<lparr>kind = PlainObject, props = [(''self'', VRef 0)]\<rparr>]"

definition marked_heap :: heap where
  "marked_heap =
     [\<lparr>kind = PlainObject, props = [(''x'', VRef 1)]\<rparr>,
      \<lparr>kind = PlainObject, props = [(marker, VNum 1)]\<rparr>]"

definition marked_tree :: ltree where
  "marked_tree =
     LObj 0 PlainObject
       (LCons ''x'' (LObj 1 PlainObject (LCons marker (LPrim (VNum 1)) LNil)) LNil)"


definition nested_heap :: heap where
  "nested_heap =
     [\<lparr>kind = PlainObject, props = [(''a'', VRef 1), (''b'', VNum 3)]\<rparr>,
      \<lparr>kind = PlainObject, props = [(''x'', VStr ''s'')]\<rparr>]"

definition nested_tree :: ltree where
  "nested_tree =
     LObj 0 PlainObject
       (LCons ''a'' (LObj 1 PlainObject (LCons ''x'' (LPrim (VStr ''s'')) LNil))
       (LCons ''b'' (LPrim (VNum 3)) LNil))"

text \<open>A canvas element whose \<^verbatim>\<open>getContext\<close> resolves no identifier.\<close>

definition canvas_el :: obj where
  "canvas_el =
     \<lparr>kind = ClassInstance,
      props = [(''nodeName'', VStr ''CANVAS''), (''getContext'', VFun [])]\<rparr>"


text \<open>
  A runtime that decodes two texts, \<^verbatim>\<open>null\<close> and \<^verbatim>\<open>{"isKernelObj":true}\<close>, and rejects
  every other one; only the string \<^verbatim>\<open>1\<close> converts to the number 1.
\<close>

definition sample_runtime :: runtime where
  \<open>sample_runtime =
     \<lparr>json_parse = (\<lambda>h s.
         if s = ''null'' then Some (VNull, h)
         else if s = ''{"isKernelObj":true}''
           then Some (VRef (length h),
                      h @ [\<lparr>kind = PlainObject, props = [(''isKernelObj'', VBool True)]\<rparr>])
         else None),
      string_to_number = (\<lambda>s. if s = ''1'' then Some 1 else None),
      to_primitive = (\<lambda>h a. Inr (VStr ''[object Object]''))\<rparr>\<close>

text \<open>The sample canvas and an empty object, on the sample runtime.\<close>

definition canvas_world :: world where
  "canvas_world =
     \<lparr>heap_of = [canvas_el, \<lparr>kind = PlainObject, props = []\<rparr>], calls = [],
      runtime_of = sample_runtime\<rparr>"

text \<open>A descriptor object whose only field is the flag.\<close>

definition flag_heap :: "jsval \<Rightarrow> heap" where
  "flag_heap flag = [\<lparr>kind = PlainObject, props = [(''isKernelObj'', flag)]\<rparr>]"

text \<open>
  Objects inside and outside the reach of the theorems on \<^verbatim>\<open>clone\<close>: one that hides
  \<^verbatim>\<open>hasOwnProperty\<close> and carries the marker, one that hides \<^verbatim>\<open>constructor\<close>, a frozen
  record, and two records with a key \<^verbatim>\<open>__proto__\<close>.
\<close>

definition shadow_heap :: heap where
  "shadow_heap =
     [\<lparr>kind = PlainObject, props = [(marker, VNum 1), (''hasOwnProperty'', VNum 1)]\<rparr>]"

definition constructor_heap :: heap where
  "constructor_heap = [\<lparr>kind = PlainObject, props = [(''constructor'', VNum 1)]\<rparr>]"

definition frozen_heap :: heap where
  "frozen_heap = [\<lparr>kind = Locked Frozen ObjectProto, props = [(''x'', VNum 1)]\<rparr>]"

definition proto_key_heap :: heap where
  "proto_key_heap =
     [\<lparr>kind = PlainObject, props = [(''__proto__'', VRef 1)]\<rparr>,
      \<lparr>kind = PlainObject, props = [(''x'', VNum 1)]\<rparr>]"

definition proto_null_heap :: heap where
  "proto_null_heap = [\<lparr>kind = PlainObject, props = [(''__proto__'', VNull)]\<rparr>]"



section \<open>Writes and deletions on the heap\<close>

lemma length_set_prop [simp]: "length (set_prop h a k v) = length h"
  by (simp add: set_prop_def)

lemma length_delete_prop [simp]: "length (delete_prop h a k) = length h"
  by (simp add: delete_prop_def)

lemma nth_set_prop_other: "b \<noteq> a \<Longrightarrow> set_prop h a k v ! b = h ! b"
  by (simp add: set_prop_def)

lemma nth_delete_prop_other: "b \<noteq> a \<Longrightarrow> delete_prop h a k ! b = h ! b"
  by (simp add: delete_prop_def)

lemma kind_set_prop [simp]: "kind (set_prop h a k v ! b) = kind (h ! b)"
  by (cases "b = a") (simp_all add: set_prop_def)

lemma kind_delete_prop [simp]: "kind (delete_prop h a k ! b) = kind (h ! b)"
  by (cases "b = a") (simp_all add: delete_prop_def)

lemma upd_assoc_fresh: "k \<notin> fst ` set ps \<Longrightarrow> upd_assoc ps k v = ps @ [(k, v)]"
  by (induction ps) auto

lemma keys_upd_assoc: "fst ` set (upd_assoc ps k v) = insert k (fst ` set ps)"
  by (induction ps) force+

lemma filter_fresh: "k \<notin> fst ` set ps \<Longrightarrow> filter (\<lambda>p. fst p \<noteq> k) ps = ps"
  by (induction ps) auto

lemma props_set_prop_same:
  "a < length h \<Longrightarrow> props (set_prop h a k v ! a) = upd_assoc (props (h ! a)) k v"
  by (simp add: set_prop_def)

lemma props_delete_prop_same:
  "a < length h \<Longrightarrow> props (delete_prop h a k ! a) = filter (\<lambda>p. fst p \<noteq> k) (props (h ! a))"
  by (simp add: delete_prop_def)

lemma unmark_mark:
  assumes "a < length h" "\<not> has_own (h ! a) k"
  shows "delete_prop (set_prop h a k v) a k = h"
proof -
  have fr: "k \<notin> fst ` set (props (h ! a))" using assms(2) by (simp add: has_own_def)
  have "filter (\<lambda>p. fst p \<noteq> k) (upd_assoc (props (h ! a)) k v) = props (h ! a)"
    by (simp add: upd_assoc_fresh [OF fr] filter_fresh [OF fr])
  then show ?thesis using assms(1)
    by (simp add: delete_prop_def set_prop_def)
qed

lemma has_own_set_prop_same: "a < length h \<Longrightarrow> has_own (set_prop h a k v ! a) k"
  by (simp add: has_own_def props_set_prop_same keys_upd_assoc)



lemma write_prop_Inl: "write_prop h a k v = Inl e \<Longrightarrow> a < length h \<Longrightarrow> e = TypeError"
  by (auto simp: write_prop_def split: if_splits)





section \<open>The heap around a call of clone\<close>

lemma ordinary_find:
  assumes "ordinary_obj ob"
  shows "find_member ob ''hasOwnProperty'' = (if proto_of (kind ob) = NoProto then Absent else Inherited)"
    and "find_member ob ''constructor'' = (if proto_of (kind ob) = NoProto then Absent else Inherited)"
proof -
  have "map_of (props ob) ''hasOwnProperty'' = None" "map_of (props ob) ''constructor'' = None"
    using assms by (simp_all add: ordinary_obj_def has_own_def map_of_eq_None_iff)
  then show "find_member ob ''hasOwnProperty'' = (if proto_of (kind ob) = NoProto then Absent else Inherited)"
    and "find_member ob ''constructor'' = (if proto_of (kind ob) = NoProto then Absent else Inherited)"
    by (simp_all add: find_member_def)
qed

lemma ordinary_clone_unfold:
  assumes o: "ordinary_obj (h ! a)" and a: "a < length h"
  shows "clone (Suc n) h (VRef a) =
     (if proto_of (kind (h ! a)) = NoProto then Throw TypeError h
      else if has_own (h ! a) marker then Return (VRef a) h
      else (case construct (proto_of (kind (h ! a))) of
              None \<Rightarrow> Throw TypeError h
            | Some k \<Rightarrow> clone_keys n (h @ [\<lparr>kind = k, props = []\<rparr>]) a (VRef (length h))
                         (own_keys (h ! a))))"
  using a by (simp add: call_hasOwnProperty_def call_constructor_def ordinary_find [OF o]
      split: option.splits)



text \<open>
  Fuel only bounds the depth of the recursion: a call that has returned, raised or
  left the model with some fuel does the same with more.
\<close>

lemma clone_fuel_mono:
  "clone n h v \<noteq> OutOfFuel \<Longrightarrow> clone (Suc n) h v = clone n h v"
  "clone_keys n h a t ks \<noteq> OutOfFuel \<Longrightarrow> clone_keys (Suc n) h a t ks = clone_keys n h a t ks"
proof (induction n h v and n h a t ks rule: clone_clone_keys.induct)
  case (1 h v)
  then show ?case by simp
next
  case (2 n h v)
  then show ?case by (auto split: jsval.splits sum.splits bool.splits)
next
  case (3 n h a t)
  then show ?case by simp
next
  case (4 n h a t key keys)
  then show ?case by (auto split: sum.splits outcome.splits write_result.splits)
qed

section \<open>Cloning a finite unfolding\<close>

lemma unfolds_keys:
  "unfolds t h v \<Longrightarrow> True"
  "unfolds_props ts h ps \<Longrightarrow> map fst ps = keys_of ts"
  by (induction t and ts arbitrary: v and ps) (auto split: list.splits)

lemma unfolds_addrs_bound:
  "unfolds t h v \<Longrightarrow> addrs t \<subseteq> {..<length h}"
  "unfolds_props ts h ps \<Longrightarrow> addrs_props ts \<subseteq> {..<length h}"
  by (induction t and ts arbitrary: v and ps) (auto split: list.splits)

lemma unfolds_agree:
  "unfolds t h v \<Longrightarrow> \<forall>b \<in> addrs t. b < length h' \<and> h' ! b = h ! b \<Longrightarrow> unfolds t h' v"
  "unfolds_props ts h ps \<Longrightarrow> \<forall>b \<in> addrs_props ts. b < length h' \<and> h' ! b = h ! b \<Longrightarrow>
     unfolds_props ts h' ps"
  by (induction t and ts arbitrary: v and ps) (auto split: list.splits)

lemma clone_non_ref: "\<not> is_ref v \<Longrightarrow> clone (Suc n) h v = Return v h"
  by (cases v) auto


lemma loop_step_heap:
  fixes key :: string and v2 :: jsval
  assumes a: "a < length h" and t: "tmp < length h" and ne: "a \<noteq> tmp"
    and nm: "\<not> has_own (h ! a) marker"
    and l2: "length h \<le> length h2"
    and fr: "\<forall>b < length h. h2 ! b = set_prop h a marker VNull ! b"
  defines "h4 \<equiv> delete_prop (set_prop h2 tmp key v2) a marker"
  shows "length h4 = length h2"
    and "h4 ! a = h ! a"
    and "\<forall>b < length h. b \<noteq> tmp \<longrightarrow> h4 ! b = h ! b"
    and "\<forall>b. length h \<le> b \<longrightarrow> h4 ! b = h2 ! b"
    and "props (h4 ! tmp) = upd_assoc (props (h ! tmp)) key v2"
proof -
  show "length h4 = length h2" by (simp add: h4_def)
  have a2: "a < length h2" and t2: "tmp < length h2" using a t l2 by auto
  have "h4 ! a = delete_prop h2 a marker ! a"
    unfolding h4_def using ne a2 by (simp add: delete_prop_def set_prop_def)
  also have "\<dots> = delete_prop (set_prop h a marker VNull) a marker ! a"
    using fr a a2 by (simp add: delete_prop_def)
  also have "\<dots> = h ! a" using unmark_mark [OF a nm] by simp
  finally show h4a: "h4 ! a = h ! a" .
  show "\<forall>b < length h. b \<noteq> tmp \<longrightarrow> h4 ! b = h ! b"
  proof (intro allI impI)
    fix b assume b: "b < length h" "b \<noteq> tmp"
    show "h4 ! b = h ! b"
    proof (cases "b = a")
      case True with h4a show ?thesis by simp
    next
      case False
      then have "h4 ! b = h2 ! b" using b
        by (simp add: h4_def nth_delete_prop_other nth_set_prop_other)
      also have "\<dots> = h ! b" using fr b False by (simp add: nth_set_prop_other)
      finally show ?thesis .
    qed
  qed
  show "\<forall>b. length h \<le> b \<longrightarrow> h4 ! b = h2 ! b"
    using a t by (simp add: h4_def nth_delete_prop_other nth_set_prop_other)
  have "props (h4 ! tmp) = props (set_prop h2 tmp key v2 ! tmp)"
    using ne by (simp add: h4_def nth_delete_prop_other)
  also have "\<dots> = upd_assoc (props (h2 ! tmp)) key v2"
    using t2 by (simp add: props_set_prop_same)
  also have "h2 ! tmp = h ! tmp" using fr t ne by (simp add: nth_set_prop_other)
  finally show "props (h4 ! tmp) = upd_assoc (props (h ! tmp)) key v2" .
qed



lemma plain_clone_unfold:
  assumes a: "a < length h" and k: "kind (h ! a) = PlainObject"
    and r: "set (own_keys (h ! a)) \<inter> set reserved_keys = {}"
  shows "clone (Suc n) h (VRef a) =
     clone_keys n (h @ [\<lparr>kind = PlainObject, props = []\<rparr>]) a (VRef (length h)) (own_keys (h ! a))"
proof -
  have "ordinary_obj (h ! a)" "\<not> has_own (h ! a) marker"
    using r by (auto simp: ordinary_obj_def has_own_def own_keys_def reserved_keys_def)
  then show ?thesis using ordinary_clone_unfold [OF _ a, of n] k by simp
qed

lemma plain_loop_step:
  assumes a: "a < length h" and t: "tmp < length h" and ne: "a \<noteq> tmp"
    and nm: "\<not> has_own (h ! a) marker"
    and ka: "kind (h ! a) = PlainObject" and kt: "kind (h ! tmp) = PlainObject"
    and own: "has_own (h ! a) key" and np: "key \<noteq> ''__proto__''"
    and fresh: "\<not> has_own (h ! tmp) key"
    and c: "clone n (set_prop h a marker VNull) (get_prop (set_prop h a marker VNull) a key) =
        Return v2 h2"
    and l2: "length h \<le> length h2"
    and fr: "\<forall>b < length h. h2 ! b = set_prop h a marker VNull ! b"
  shows "clone_keys n h a (VRef tmp) (key # keys) =
     clone_keys n (delete_prop (set_prop h2 tmp key v2) a marker) a (VRef tmp) keys"
proof -
  define h1 where "h1 = set_prop h a marker VNull"
  have w: "write_prop h a marker VNull = Inr h1"
    using a nm ka by (simp add: write_prop_def h1_def)
  have t2: "h2 ! tmp = h ! tmp" using fr t ne by (simp add: nth_set_prop_other)
  have a2: "h2 ! a = h1 ! a" using fr a by (simp add: h1_def)
  have "write_prop h2 tmp key v2 = Inr (set_prop h2 tmp key v2)"
    using t l2 t2 fresh kt by (simp add: write_prop_def)
  then have asg: "assign_temp h2 (VRef tmp) key v2 = Written (set_prop h2 tmp key v2)"
    using t l2 np by (simp add: assign_temp_def)
  define h3 where "h3 = set_prop h2 tmp key v2"
  have "h3 ! a = h1 ! a" using ne a2 by (simp add: h3_def nth_set_prop_other)
  then have "has_own (h3 ! a) marker" "lock_of (kind (h3 ! a)) = None"
    using a ka by (simp_all add: h1_def has_own_set_prop_same)
  then have del: "delete_own h3 a marker = Inr (delete_prop h3 a marker)"
    using a l2 by (simp add: delete_own_def h3_def)
  show ?thesis
    using a own w c asg del by (simp add: h1_def [symmetric] h3_def [symmetric])
qed

lemma clone_tree:
  "\<forall>n h v. unfolds t h v \<longrightarrow> plain_tree t \<longrightarrow> depth t < n \<longrightarrow>
     (\<exists>v' h' t'. clone n h v = Return v' h' \<and> length h \<le> length h' \<and>
        take (length h) h' = h \<and> unfolds t' h' v' \<and> same_shape t t' \<and>
        addrs t' \<subseteq> {length h..<length h'} \<and> (\<not> is_ref v \<longrightarrow> v' = v))"
  "\<forall>n h a tmp ps. unfolds_props ts h ps \<longrightarrow> plain_props ts \<longrightarrow> depth_props ts < n \<longrightarrow>
     a < length h \<longrightarrow> tmp < length h \<longrightarrow> a \<noteq> tmp \<longrightarrow> \<not> has_own (h ! a) marker \<longrightarrow>
     kind (h ! a) = PlainObject \<longrightarrow> kind (h ! tmp) = PlainObject \<longrightarrow>
     a \<notin> addrs_props ts \<longrightarrow> tmp \<notin> addrs_props ts \<longrightarrow> distinct (keys_of ts) \<longrightarrow>
     ''__proto__'' \<notin> set (keys_of ts) \<longrightarrow>
     (\<forall>p \<in> set ps. map_of (props (h ! a)) (fst p) = Some (snd p)) \<longrightarrow>
     (\<forall>k \<in> set (keys_of ts). \<not> has_own (h ! tmp) k) \<longrightarrow>
     (\<exists>h' ts' qs. clone_keys n h a (VRef tmp) (map fst ps) = Return (VRef tmp) h' \<and>
        length h \<le> length h' \<and> (\<forall>b < length h. b \<noteq> tmp \<longrightarrow> h' ! b = h ! b) \<and>
        kind (h' ! tmp) = PlainObject \<and>
        props (h' ! tmp) = props (h ! tmp) @ qs \<and> unfolds_props ts' h' qs \<and>
        same_shape_props ts ts' \<and> addrs_props ts' \<subseteq> {length h..<length h'})"
proof (induction t and ts)
  case (LPrim p)
  show ?case
  proof (intro allI impI)
    fix n :: nat and h :: heap and v
    assume u: "unfolds (LPrim p) h v" and d: "depth (LPrim p) < n"
    from d obtain m where n: "n = Suc m" by (cases n) auto
    from u have nr: "\<not> is_ref v" and vp: "v = p" by auto
    have "clone n h v = Return v h" unfolding n using nr by (rule clone_non_ref)
    moreover have "unfolds (LPrim v) h v" using nr by simp
    ultimately show "\<exists>v' h' t'. clone n h v = Return v' h' \<and> length h \<le> length h' \<and>
        take (length h) h' = h \<and> unfolds t' h' v' \<and>
        same_shape (LPrim p) t' \<and> addrs t' \<subseteq> {length h..<length h'} \<and> (\<not> is_ref v \<longrightarrow> v' = v)"
      unfolding vp [symmetric]
      by (intro exI [of _ v] exI [of _ h] exI [of _ "LPrim v"]) simp
  qed
next
  case (LObj a k ts)
  show ?case
  proof (intro allI impI)
    fix n :: nat and h :: heap and v
    assume u: "unfolds (LObj a k ts) h v" and pl: "plain_tree (LObj a k ts)"
      and d: "depth (LObj a k ts) < n"
    from d obtain m where n: "n = Suc m" and dm: "depth_props ts < m" by (cases n) auto
    from u have v: "v = VRef a" and a: "a < length h" and k: "kind (h ! a) = k"
      and acyc: "a \<notin> addrs_props ts" and up: "unfolds_props ts h (props (h ! a))" by auto
    from pl have kp: "k = PlainObject" and dist: "distinct (keys_of ts)"
      and res: "set (keys_of ts) \<inter> set reserved_keys = {}" and pp: "plain_props ts" by auto
    have keys: "map fst (props (h ! a)) = keys_of ts" by (rule unfolds_keys(2) [OF up])
    have nmk: "marker \<notin> set (keys_of ts)" and npk: "''__proto__'' \<notin> set (keys_of ts)"
      using res by (auto simp: reserved_keys_def)
    have nm: "\<not> has_own (h ! a) marker" using nmk keys by (simp add: has_own_def)
    define tmp where "tmp = length h"
    define h0 where "h0 = h @ [\<lparr>kind = PlainObject, props = []\<rparr>]"
    have h0a: "h0 ! a = h ! a" using a by (simp add: h0_def nth_append)
    have h0t: "h0 ! tmp = \<lparr>kind = PlainObject, props = []\<rparr>" by (simp add: h0_def tmp_def)
    have bnd: "addrs_props ts \<subseteq> {..<length h}" by (rule unfolds_addrs_bound(2) [OF up])
    have up0: "unfolds_props ts h0 (props (h ! a))"
      by (rule unfolds_agree(2) [OF up]) (use bnd in \<open>auto simp: h0_def nth_append\<close>)
    have look: "\<forall>p \<in> set (props (h ! a)). map_of (props (h0 ! a)) (fst p) = Some (snd p)"
      using dist keys by (simp add: h0a)
    have tfree: "\<forall>k \<in> set (keys_of ts). \<not> has_own (h0 ! tmp) k"
      by (simp add: h0t has_own_def)
    have pre: "a < length h0" "tmp < length h0" "a \<noteq> tmp" "\<not> has_own (h0 ! a) marker"
      "tmp \<notin> addrs_props ts" "kind (h0 ! a) = PlainObject" "kind (h0 ! tmp) = PlainObject"
      using a nm bnd k kp by (auto simp: h0_def tmp_def nth_append)
    with LObj.IH [rule_format, of h0 "props (h ! a)" m a tmp] up0 pp dm acyc dist npk look tfree
    obtain h' ts' qs where ck: "clone_keys m h0 a (VRef tmp) (map fst (props (h ! a))) = Return (VRef tmp) h'"
      and len: "length h0 \<le> length h'"
      and fr: "\<forall>b < length h0. b \<noteq> tmp \<longrightarrow> h' ! b = h0 ! b"
      and kd: "kind (h' ! tmp) = PlainObject"
      and pr: "props (h' ! tmp) = props (h0 ! tmp) @ qs" and uq: "unfolds_props ts' h' qs"
      and sh: "same_shape_props ts ts'" and ad: "addrs_props ts' \<subseteq> {length h0..<length h'}"
      by blast
    have rk: "set (own_keys (h ! a)) \<inter> set reserved_keys = {}"
      using res keys by (simp add: own_keys_def)
    have c: "clone n h v = Return (VRef tmp) h'"
      using ck plain_clone_unfold [OF a _ rk, of m] k kp
      by (simp add: n v own_keys_def h0_def tmp_def)
    have "\<forall>b < length h. h' ! b = h ! b" using fr by (auto simp: h0_def tmp_def nth_append)
    then have tk: "take (length h) h' = h"
      using len by (intro nth_equalityI) (auto simp: h0_def)
    have ut: "unfolds (LObj tmp PlainObject ts') h' (VRef tmp)"
      using len kd pr uq ad by (auto simp: h0t h0_def tmp_def)
    have "addrs (LObj tmp PlainObject ts') \<subseteq> {length h..<length h'}"
      using ad len by (auto simp: h0_def tmp_def)
    with c ut sh kp tk len
    show "\<exists>v' h' t'. clone n h v = Return v' h' \<and> length h \<le> length h' \<and>
        take (length h) h' = h \<and> unfolds t' h' v' \<and>
        same_shape (LObj a k ts) t' \<and> addrs t' \<subseteq> {length h..<length h'} \<and> (\<not> is_ref v \<longrightarrow> v' = v)"
      by (intro exI [of _ "VRef tmp"] exI [of _ h'] exI [of _ "LObj tmp PlainObject ts'"])
        (simp add: v h0_def)
  qed
next
  case LNil
  show ?case
  proof (intro allI impI)
    fix n :: nat and h :: heap and a tmp :: nat and ps :: "(string \<times> jsval) list"
    assume "unfolds_props LNil h ps" and "kind (h ! tmp) = PlainObject"
    then have "ps = []" "kind (h ! tmp) = PlainObject" by simp_all
    then show "\<exists>h' ts' qs. clone_keys n h a (VRef tmp) (map fst ps) = Return (VRef tmp) h' \<and>
        length h \<le> length h' \<and> (\<forall>b < length h. b \<noteq> tmp \<longrightarrow> h' ! b = h ! b) \<and>
        kind (h' ! tmp) = PlainObject \<and>
        props (h' ! tmp) = props (h ! tmp) @ qs \<and> unfolds_props ts' h' qs \<and>
        same_shape_props LNil ts' \<and> addrs_props ts' \<subseteq> {length h..<length h'}"
      by (intro exI [of _ h] exI [of _ LNil] exI [of _ "[]"]) simp
  qed
next
  case (LCons key t ts)
  show ?case
  proof (intro allI impI)
    fix n :: nat and h :: heap and a tmp :: nat and ps :: "(string \<times> jsval) list"
    assume u: "unfolds_props (LCons key t ts) h ps"
      and pl: "plain_props (LCons key t ts)"
      and d: "depth_props (LCons key t ts) < n"
      and a: "a < length h" and tm: "tmp < length h" and ne: "a \<noteq> tmp"
      and nm: "\<not> has_own (h ! a) marker"
      and ka: "kind (h ! a) = PlainObject" and kt: "kind (h ! tmp) = PlainObject"
      and acyc: "a \<notin> addrs_props (LCons key t ts)"
      and tfresh: "tmp \<notin> addrs_props (LCons key t ts)"
      and dist: "distinct (keys_of (LCons key t ts))"
      and npk: "''__proto__'' \<notin> set (keys_of (LCons key t ts))"
      and look: "\<forall>p \<in> set ps. map_of (props (h ! a)) (fst p) = Some (snd p)"
      and tfree: "\<forall>k \<in> set (keys_of (LCons key t ts)). \<not> has_own (h ! tmp) k"
    from u obtain p ps' where ps: "ps = p # ps'" and pk: "fst p = key"
      and ut: "unfolds t h (snd p)" and ups: "unfolds_props ts h ps'"
      by (auto split: list.splits)
    define v where "v = snd p"
    define h1 where "h1 = set_prop h a marker VNull"
    have lk: "map_of (props (h ! a)) key = Some v" using look ps pk by (simp add: v_def)
    then have own: "has_own (h ! a) key"
      by (auto simp: has_own_def dest: map_of_SomeD intro: rev_image_eqI)
    have mfresh: "marker \<notin> fst ` set (props (h ! a))" using nm by (simp add: has_own_def)
    have l1: "length h1 = length h" by (simp add: h1_def)
    have "props (h1 ! a) = props (h ! a) @ [(marker, VNull)]"
      using a mfresh by (simp add: h1_def props_set_prop_same upd_assoc_fresh)
    then have g: "get_prop h1 a key = v"
      using a lk l1 by (simp add: get_prop_def map_add_Some_iff)
    have bt: "addrs t \<subseteq> {..<length h}" by (rule unfolds_addrs_bound(1) [OF ut])
    have bts: "addrs_props ts \<subseteq> {..<length h}" by (rule unfolds_addrs_bound(2) [OF ups])
    have u1: "unfolds t h1 v"
      unfolding v_def using ut
    proof (rule unfolds_agree(1))
      show "\<forall>b\<in>addrs t. b < length h1 \<and> h1 ! b = h ! b"
      proof
        fix b assume b: "b \<in> addrs t"
        then have "b \<noteq> a" using acyc by auto
        then have "h1 ! b = h ! b" by (simp add: h1_def nth_set_prop_other)
        then show "b < length h1 \<and> h1 ! b = h ! b" using b bt l1 by auto
      qed
    qed
    from LCons.IH(1) [rule_format, of h1 v n] u1 pl d
    obtain v2 h2 t2 where c: "clone n h1 v = Return v2 h2" and l2: "length h1 \<le> length h2"
      and tk: "take (length h1) h2 = h1" and u2: "unfolds t2 h2 v2"
      and s2: "same_shape t t2" and a2: "addrs t2 \<subseteq> {length h1..<length h2}"
      by auto
    have fr: "\<forall>b < length h. h2 ! b = set_prop h a marker VNull ! b"
      using tk l1 l2 unfolding h1_def by (metis nth_take)
    define h4 where "h4 = delete_prop (set_prop h2 tmp key v2) a marker"
    have l2': "length h \<le> length h2" using l1 l2 by simp
    note st = loop_step_heap [OF a tm ne nm l2' fr, of key v2, folded h4_def]
    have kfresh: "\<not> has_own (h ! tmp) key" using tfree by simp
    have p4: "props (h4 ! tmp) = props (h ! tmp) @ [(key, v2)]"
      using st(5) kfresh by (simp add: upd_assoc_fresh has_own_def)
    have k4: "kind (h4 ! tmp) = PlainObject"
      using fr tm kt by (simp add: h4_def)
    have step: "clone_keys n h a (VRef tmp) (key # map fst ps') =
        clone_keys n h4 a (VRef tmp) (map fst ps')"
      unfolding h4_def
      by (rule plain_loop_step [OF a tm ne nm ka kt own _ kfresh _ l2' fr])
        (use npk c g in \<open>auto simp: h1_def\<close>)
    have ups4: "unfolds_props ts h4 ps'"
      using ups
    proof (rule unfolds_agree(2))
      show "\<forall>b\<in>addrs_props ts. b < length h4 \<and> h4 ! b = h ! b"
        using bts tfresh st(1) st(3) l2' by auto
    qed
    have look4: "\<forall>p \<in> set ps'. map_of (props (h4 ! a)) (fst p) = Some (snd p)"
      using look ps st(2) by simp
    have tfree4: "\<forall>k \<in> set (keys_of ts). \<not> has_own (h4 ! tmp) k"
      using tfree dist p4 by (auto simp: has_own_def)
    have pre4: "a < length h4" "tmp < length h4" "\<not> has_own (h4 ! a) marker"
      "kind (h4 ! a) = PlainObject"
      using a tm nm ka st(1) st(2) l2' by auto
    from LCons.IH(2) [rule_format, of h4 ps' n a tmp] ups4 pl d pre4 k4 ne acyc tfresh dist npk
      look4 tfree4
    obtain h' ts' qs where ck: "clone_keys n h4 a (VRef tmp) (map fst ps') = Return (VRef tmp) h'"
      and len: "length h4 \<le> length h'"
      and fr4: "\<forall>b < length h4. b \<noteq> tmp \<longrightarrow> h' ! b = h4 ! b"
      and kd: "kind (h' ! tmp) = PlainObject"
      and pr: "props (h' ! tmp) = props (h4 ! tmp) @ qs" and uq: "unfolds_props ts' h' qs"
      and sh: "same_shape_props ts ts'" and ad: "addrs_props ts' \<subseteq> {length h4..<length h'}"
      by auto
    have u2': "unfolds t2 h' v2"
      using u2
    proof (rule unfolds_agree(1))
      show "\<forall>b\<in>addrs t2. b < length h' \<and> h' ! b = h2 ! b"
      proof
        fix b assume b: "b \<in> addrs t2"
        then have b1: "length h \<le> b" and b2: "b < length h2" using a2 l1 by auto
        have "b \<noteq> tmp" using b1 tm by simp
        then have "h' ! b = h4 ! b" using fr4 b2 st(1) by simp
        also have "\<dots> = h2 ! b" using st(4) b1 by simp
        finally show "b < length h' \<and> h' ! b = h2 ! b" using b2 len st(1) by simp
      qed
    qed
    have ckk: "clone_keys n h a (VRef tmp) (map fst ps) = Return (VRef tmp) h'"
      using ck step by (simp add: ps pk)
    have keep: "\<forall>b < length h. b \<noteq> tmp \<longrightarrow> h' ! b = h ! b"
      using fr4 st(1) st(3) l2' by auto
    have "props (h' ! tmp) = props (h ! tmp) @ ((key, v2) # qs)" using pr p4 by simp
    moreover have "unfolds_props (LCons key t2 ts') h' ((key, v2) # qs)" using u2' uq by simp
    moreover have "same_shape_props (LCons key t ts) (LCons key t2 ts')" using s2 sh by simp
    moreover have "addrs_props (LCons key t2 ts') \<subseteq> {length h..<length h'}"
      using a2 ad l1 l2 len st(1) by auto
    moreover have "length h \<le> length h'" using len st(1) l2' by simp
    ultimately
    show "\<exists>h' ts' qs. clone_keys n h a (VRef tmp) (map fst ps) = Return (VRef tmp) h' \<and>
        length h \<le> length h' \<and> (\<forall>b < length h. b \<noteq> tmp \<longrightarrow> h' ! b = h ! b) \<and>
        kind (h' ! tmp) = PlainObject \<and>
        props (h' ! tmp) = props (h ! tmp) @ qs \<and> unfolds_props ts' h' qs \<and>
        same_shape_props (LCons key t ts) ts' \<and> addrs_props ts' \<subseteq> {length h..<length h'}"
      using ckk keep kd by blast
  qed
qed

section \<open>Properties of clone\<close>

lemmas heap_ops = has_own_def own_keys_def set_prop_def get_prop_def delete_prop_def
  find_member_def call_hasOwnProperty_def call_constructor_def write_prop_def delete_own_def
  assign_temp_def

text \<open>
  C10, as stated: for every object that has an own property named \<^verbatim>\<open>isActiveClone\<close>,
  clone would return the input itself. The first test of clone calls the member
  \<^verbatim>\<open>hasOwnProperty\<close> of the object: an object that also has an own property of that name
  which is no function makes the call raise a TypeError.
\<close>

theorem clone_shadowed_counterexample:
  "has_own (shadow_heap ! 0) marker \<and>
   clone (Suc 0) shadow_heap (VRef 0) = Throw TypeError shadow_heap"
  by (simp add: shadow_heap_def heap_ops)

text \<open>
  C10, amended: for every object that has an own property named \<^verbatim>\<open>isActiveClone\<close> and
  takes \<^verbatim>\<open>hasOwnProperty\<close> from \<^verbatim>\<open>Object.prototype\<close> (it has a prototype and no own
  property of that name), also a fresh top-level input, clone returns the input itself
  by reference: the result is the same reference and the heap is unchanged, so nothing
  was duplicated.
\<close>

theorem clone_marked_returns_input:
  "a < length h \<Longrightarrow> has_own (h ! a) marker \<Longrightarrow>
   find_member (h ! a) ''hasOwnProperty'' = Inherited \<Longrightarrow>
   clone (Suc n) h (VRef a) = Return (VRef a) h"
  by (simp add: call_hasOwnProperty_def)

theorem clone_marked_returns_input_witness:
  "1 < length marked_heap \<and> has_own (marked_heap ! 1) marker \<and>
   find_member (marked_heap ! 1) ''hasOwnProperty'' = Inherited \<and>
   clone (Suc 0) marked_heap (VRef 1) = Return (VRef 1) marked_heap"
proof -
  have a: "1 < length marked_heap" by (simp add: marked_heap_def)
  have m: "has_own (marked_heap ! 1) marker" by (simp add: marked_heap_def has_own_def)
  have i: "find_member (marked_heap ! 1) ''hasOwnProperty'' = Inherited"
    by (simp add: marked_heap_def find_member_def)
  from a m i clone_marked_returns_input [OF a m i, of 0] show ?thesis by simp
qed

text \<open>
  C5, as stated: for \<^verbatim>\<open>a = {}; a.self = a\<close> the \<^verbatim>\<open>self\<close> field of \<^verbatim>\<open>clone(a)\<close> would be
  the result itself. It is not: the result is the new object at address 1, and its
  \<^verbatim>\<open>self\<close> field is the reference 0 of the source.
\<close>

theorem clone_self_counterexample:
  "clone (Suc (Suc 0)) self_heap (VRef 0) =
     Return (VRef 1) (self_heap @ [\<lparr>kind = PlainObject, props = [(''self'', VRef 0)]\<rparr>]) \<and>
   get_prop (self_heap @ [\<lparr>kind = PlainObject, props = [(''self'', VRef 0)]\<rparr>]) 1 ''self'' \<noteq> VRef 1"
  by (simp add: self_heap_def heap_ops)

text \<open>
  C5, amended: for an object \<open>a\<close> whose only property \<^verbatim>\<open>self\<close> refers to \<open>a\<close> itself,
  clone returns with any fuel of at least 2; the result is a new object whose
  \<^verbatim>\<open>self\<close> field refers to the source \<open>a\<close>, and the heap before the call is unchanged,
  so \<open>a\<close> carries no marker afterwards.
\<close>

theorem clone_self_reference:
  assumes "a < length h" and "h ! a = \<lparr>kind = PlainObject, props = [(''self'', VRef a)]\<rparr>"
  shows "clone (Suc (Suc n)) h (VRef a) =
     Return (VRef (length h)) (h @ [\<lparr>kind = PlainObject, props = [(''self'', VRef a)]\<rparr>])"
proof -
  let ?o = "\<lparr>kind = PlainObject, props = [(''self'', VRef a)]\<rparr>"
  have "(h @ [\<lparr>kind = PlainObject, props = []\<rparr>])
          [a := \<lparr>kind = PlainObject, props = [(''self'', VRef a), (marker, VNull)]\<rparr>,
           length h := ?o, a := ?o] = h @ [?o]"
    using assms by (intro nth_equalityI) (auto simp: nth_append nth_list_update)
  then show ?thesis
    using assms by (simp add: heap_ops nth_append)
qed

theorem clone_self_reference_witness:
  "0 < length self_heap \<and>
   self_heap ! 0 = \<lparr>kind = PlainObject, props = [(''self'', VRef 0)]\<rparr> \<and>
   clone (Suc (Suc 0)) self_heap (VRef 0) =
     Return (VRef (length self_heap))
       (self_heap @ [\<lparr>kind = PlainObject, props = [(''self'', VRef 0)]\<rparr>])"
proof -
  have a: "0 < length self_heap" by (simp add: self_heap_def)
  have o: "self_heap ! 0 = \<lparr>kind = PlainObject, props = [(''self'', VRef 0)]\<rparr>"
    by (simp add: self_heap_def)
  from a o clone_self_reference [OF a o, of 0] show ?thesis by simp
qed




text \<open>
  C7, as stated: the clone of an acyclic value of primitives and nested plain records
  would share no nested record with it. A nested record that has a property named
  \<^verbatim>\<open>isActiveClone\<close> is returned by reference: the \<^verbatim>\<open>x\<close> field of the result is the
  very record at address 1 that the source holds.
\<close>

theorem clone_shares_marked_counterexample:
  "unfolds marked_tree marked_heap (VRef 0) \<and>
   clone (Suc (Suc (Suc 0))) marked_heap (VRef 0) =
     Return (VRef 2) (marked_heap @ [\<lparr>kind = PlainObject, props = [(''x'', VRef 1)]\<rparr>]) \<and>
   get_prop (marked_heap @ [\<lparr>kind = PlainObject, props = [(''x'', VRef 1)]\<rparr>]) 2 ''x'' = VRef 1 \<and>
   get_prop marked_heap 0 ''x'' = VRef 1"
  by (simp add: marked_heap_def marked_tree_def heap_ops)

text \<open>
  C7, amended: let \<open>v\<close> unfold to the finite tree \<open>t\<close> (so \<open>v\<close> is acyclic), all of whose
  objects are extensible plain records with no property named \<^verbatim>\<open>isActiveClone\<close>,
  \<^verbatim>\<open>hasOwnProperty\<close>, \<^verbatim>\<open>constructor\<close> or \<^verbatim>\<open>__proto__\<close>. Then with any fuel above the depth
  of \<open>t\<close> clone returns a value \<open>v'\<close> that unfolds to a tree \<open>t'\<close> of the same shape (deep
  equality), no object of \<open>t'\<close> is an object of \<open>t\<close> (no shared record), \<open>v\<close> still unfolds
  to \<open>t\<close> afterwards, and a value that is no object is returned as it is.
\<close>

theorem clone_plain_acyclic:
  assumes u: "unfolds t h v" and pl: "plain_tree t" and d: "depth t < n"
  shows "\<exists>v' h' t'. clone n h v = Return v' h' \<and> unfolds t h' v \<and> unfolds t' h' v' \<and>
           same_shape t t' \<and> addrs t \<inter> addrs t' = {} \<and> (is_ref v \<or> v' = v)"
proof -
  from clone_tree(1) [rule_format, OF u pl d]
  obtain v' h' t' where c: "clone n h v = Return v' h'" and l: "length h \<le> length h'"
    and tk: "take (length h) h' = h" and u': "unfolds t' h' v'"
    and sh: "same_shape t t'" and ad: "addrs t' \<subseteq> {length h..<length h'}"
    and pr: "\<not> is_ref v \<longrightarrow> v' = v"
    by blast
  have bnd: "addrs t \<subseteq> {..<length h}" by (rule unfolds_addrs_bound(1) [OF u])
  have same: "\<forall>b \<in> addrs t. b < length h' \<and> h' ! b = h ! b"
  proof
    fix b assume "b \<in> addrs t"
    then have b: "b < length h" using bnd by auto
    then have "h' ! b = take (length h) h' ! b" by simp
    then show "b < length h' \<and> h' ! b = h ! b" using tk b l by simp
  qed
  have keep: "unfolds t h' v" by (rule unfolds_agree(1) [OF u same])
  have dis: "addrs t \<inter> addrs t' = {}"
  proof (rule ccontr)
    assume "addrs t \<inter> addrs t' \<noteq> {}"
    then obtain b where "b \<in> addrs t" "b \<in> addrs t'" by auto
    then have "b < length h" "length h \<le> b" using bnd ad by auto
    then show False by simp
  qed
  from c keep u' sh dis pr show ?thesis by blast
qed

theorem clone_plain_acyclic_witness:
  "unfolds nested_tree nested_heap (VRef 0) \<and> plain_tree nested_tree \<and>
   depth nested_tree < 3 \<and>
   (\<exists>v' h' t'. clone 3 nested_heap (VRef 0) = Return v' h' \<and>
      unfolds nested_tree h' (VRef 0) \<and> unfolds t' h' v' \<and> same_shape nested_tree t' \<and>
      addrs nested_tree \<inter> addrs t' = {} \<and> (is_ref (VRef 0) \<or> v' = VRef 0))"
proof -
  have u: "unfolds nested_tree nested_heap (VRef 0)"
    by (simp add: nested_tree_def nested_heap_def)
  have pl: "plain_tree nested_tree" by (simp add: nested_tree_def reserved_keys_def)
  have d: "depth nested_tree < 3" by (simp add: nested_tree_def)
  from clone_plain_acyclic [OF u pl d] u pl d show ?thesis by blast
qed

text \<open>
  Outside these hypotheses the code does otherwise, and so does the model: a record
  with a key \<^verbatim>\<open>constructor\<close> that is no function and a frozen record make clone raise a
  TypeError; a key \<^verbatim>\<open>__proto__\<close> is not copied as a property: an object under it would
  become the prototype of the copy, which the model does not represent, and \<^verbatim>\<open>null\<close>
  under it leaves a copy without prototype and without the key.
\<close>

lemma clone_reserved_keys:
  "clone (Suc (Suc 0)) constructor_heap (VRef 0) = Throw TypeError constructor_heap"
  "clone (Suc (Suc 0)) frozen_heap (VRef 0) =
     Throw TypeError (frozen_heap @ [\<lparr>kind = PlainObject, props = []\<rparr>])"
  "clone (Suc (Suc (Suc 0))) proto_key_heap (VRef 0) = OutsideModel"
  "clone (Suc (Suc 0)) proto_null_heap (VRef 0) =
     Return (VRef 1) (proto_null_heap @ [\<lparr>kind = NullProto, props = []\<rparr>])"
  by (simp_all add: constructor_heap_def frozen_heap_def proto_key_heap_def proto_null_heap_def
      heap_ops)

section \<open>Properties of the canvas and WebGL probes\<close>

text \<open>
  The result of isCanvas is the boolean \<^verbatim>\<open>true\<close> exactly on an object whose
  \<^verbatim>\<open>nodeName\<close> and \<^verbatim>\<open>getContext\<close> are truthy and whose \<^verbatim>\<open>nodeName\<close> in upper case is
  \<^verbatim>\<open>CANVAS\<close>.
\<close>

lemma isCanvas_true_iff:
  "isCanvas h v = Inr (VBool True) \<longleftrightarrow>
     (\<exists>a. v = VRef a \<and> a < length h \<and> truthy (get_prop h a ''nodeName'') \<and>
          truthy (get_prop h a ''getContext'') \<and>
          toUpperCase h (get_prop h a ''nodeName'') = Inr (VStr ''CANVAS''))"
  by (cases v) (auto simp: isCanvas_def split: sum.splits)

text \<open>
  C9: isCanvas would return a boolean for every input, \<^verbatim>\<open>undefined\<close> included, as its
  documentation (\<^verbatim>\<open>@returns {Boolean}\<close>) says. The code returns the first falsy operand
  of its conjunction: on the empty object (address 1 of the sample world) the result is
  \<^verbatim>\<open>undefined\<close>, and on \<^verbatim>\<open>undefined\<close> the read of \<^verbatim>\<open>nodeName\<close> raises a TypeError.
\<close>

theorem isCanvas_not_boolean:
  "isCanvas (heap_of canvas_world) (VRef 1) = Inr VUndefined \<and>
   isCanvas (heap_of canvas_world) VUndefined = Inl TypeError"
  by (simp add: isCanvas_def canvas_world_def get_prop_def)




text \<open>
  The order of the attempts: on the sample canvas, which resolves no identifier, the
  legacy identifier is asked first and the standard one second, each with a fresh
  copy of the default options.
\<close>

lemma acquire_order:
  "acquire canvas_world (VRef 0) =
     Inr (VNull,
          canvas_world\<lparr>heap_of := heap_of canvas_world @ [defaultOptions, defaultOptions],
            calls := [GetContext ''experimental-webgl'' (VRef 2), GetContext ''webgl'' (VRef 3)]\<rparr>)"
  by (simp add: acquire_def initWebGlDefaultOptions_def call_getContext_def canvas_world_def
      canvas_el_def get_prop_def apply_fun_def)

lemma isCanvas_truthy_ref:
  assumes "isCanvas h v = Inr c" and "truthy c"
  shows "\<exists>a. v = VRef a \<and> a < length h \<and> truthy (get_prop h a ''getContext'')"
proof (cases v)
  case (VRef a)
  with assms show ?thesis
    by (auto simp: isCanvas_def split: if_splits sum.splits)
qed (use assms in \<open>auto simp: isCanvas_def split: if_splits sum.splits\<close>)

lemma get_prop_append: "a < length h \<Longrightarrow> get_prop (h @ xs) a k = get_prop h a k"
  by (simp add: get_prop_def nth_append)

lemma falsy_getExtension: "\<not> truthy x \<Longrightarrow> call_getExtension w x name = Inl TypeError"
  by (cases x) (auto simp: call_getExtension_def)

lemma acquire_unresolved:
  assumes a: "a < length (heap_of w)"
    and none: "\<forall>f. get_prop (heap_of w) a ''getContext'' = VFun f \<longrightarrow>
       \<not> truthy (apply_fun f ''experimental-webgl'') \<and> \<not> truthy (apply_fun f ''webgl'')"
  shows "acquire w (VRef a) = Inl TypeError \<or>
         (\<exists>x w'. acquire w (VRef a) = Inr (x, w') \<and> \<not> truthy x)"
proof (cases "get_prop (heap_of w) a ''getContext''")
  case (VFun f)
  with none have n1: "\<not> truthy (apply_fun f ''experimental-webgl'')"
    and n2: "\<not> truthy (apply_fun f ''webgl'')" by auto
  have "acquire w (VRef a) =
      Inr (apply_fun f ''webgl'',
           w\<lparr>heap_of := heap_of w @ [defaultOptions, defaultOptions],
             calls := calls w @ [GetContext ''experimental-webgl'' (VRef (length (heap_of w))),
                                GetContext ''webgl'' (VRef (Suc (length (heap_of w))))]\<rparr>)"
    using a VFun n1
    by (simp add: acquire_def initWebGlDefaultOptions_def call_getContext_def get_prop_append)
  with n2 show ?thesis by simp
qed (use a in \<open>simp_all add: acquire_def initWebGlDefaultOptions_def call_getContext_def
      get_prop_append\<close>)

text \<open>
  C2: for a valid canvas initWebGl would return \<^verbatim>\<open>null\<close>, raising nothing, when neither
  identifier resolves to a context. In the code the three lines that store the
  extensions follow the two attempts unconditionally, so with canvas support detected
  and a canvas accepted by isCanvas, a falsy result of both attempts ends in a
  TypeError (\<^verbatim>\<open>webGl.getExtension\<close> on \<^verbatim>\<open>null\<close>); a \<^verbatim>\<open>getContext\<close> member that is no
  function raises a TypeError as well.
\<close>

theorem initWebGl_no_context_raises:
  assumes cs: "truthy cs" and ok: "isCanvas (heap_of w) canvasObj = Inr c" and c: "truthy c"
    and none: "\<forall>f. get_member (heap_of w) canvasObj ''getContext'' = Inr (VFun f) \<longrightarrow>
       \<not> truthy (apply_fun f ''experimental-webgl'') \<and> \<not> truthy (apply_fun f ''webgl'')"
  shows "initWebGl cs w canvasObj = Inl TypeError"
proof -
  from isCanvas_truthy_ref [OF ok c] obtain a where v: "canvasObj = VRef a"
    and a: "a < length (heap_of w)" by auto
  from none v a have none': "\<forall>f. get_prop (heap_of w) a ''getContext'' = VFun f \<longrightarrow>
       \<not> truthy (apply_fun f ''experimental-webgl'') \<and> \<not> truthy (apply_fun f ''webgl'')"
    by simp
  from acquire_unresolved [OF a none']
  show ?thesis
  proof
    assume "acquire w (VRef a) = Inl TypeError"
    then show ?thesis using cs ok c v by (simp add: initWebGl_def)
  next
    assume "\<exists>x w'. acquire w (VRef a) = Inr (x, w') \<and> \<not> truthy x"
    then obtain x w' where acq: "acquire w (VRef a) = Inr (x, w')" and x: "\<not> truthy x" by auto
    have "store_extension w' x ''OES_texture_float'' = Inl TypeError"
      by (simp add: store_extension_def falsy_getExtension [OF x])
    then show ?thesis using cs ok c v acq by (simp add: initWebGl_def)
  qed
qed

theorem initWebGl_no_context_raises_witness:
  "truthy (VBool True) \<and> isCanvas (heap_of canvas_world) (VRef 0) = Inr (VBool True) \<and>
   get_member (heap_of canvas_world) (VRef 0) ''getContext'' = Inr (VFun []) \<and>
   \<not> truthy (apply_fun [] ''experimental-webgl'') \<and> \<not> truthy (apply_fun [] ''webgl'') \<and>
   initWebGl (VBool True) canvas_world (VRef 0) = Inl TypeError"
proof -
  have ok: "isCanvas (heap_of canvas_world) (VRef 0) = Inr (VBool True)"
    by (simp add: isCanvas_def canvas_world_def canvas_el_def get_prop_def upper_char_def)
  have g: "get_member (heap_of canvas_world) (VRef 0) ''getContext'' = Inr (VFun [])"
    by (simp add: canvas_world_def canvas_el_def get_prop_def)
  have n: "\<not> truthy (apply_fun [] ''experimental-webgl'') \<and> \<not> truthy (apply_fun [] ''webgl'')"
    by (simp add: apply_fun_def)
  have none: "\<forall>f. get_member (heap_of canvas_world) (VRef 0) ''getContext'' = Inr (VFun f) \<longrightarrow>
       \<not> truthy (apply_fun f ''experimental-webgl'') \<and> \<not> truthy (apply_fun f ''webgl'')"
    using g n by simp
  from initWebGl_no_context_raises [OF _ ok _ none] ok g n show ?thesis by simp
qed

text \<open>
  C1: building the snapshot would never raise. Without \<^verbatim>\<open>document\<close> the constant
  \<^verbatim>\<open>_isCanvasSupported\<close> is \<^verbatim>\<open>false\<close>, initCanvas returns \<^verbatim>\<open>null\<close> and initWebGl, given
  \<^verbatim>\<open>null\<close>, returns \<^verbatim>\<open>null\<close>; the next line but one calls \<^verbatim>\<open>getExtension\<close> on that
  \<^verbatim>\<open>null\<close>, and the module's initialisation ends in a TypeError.
\<close>

theorem module_init_without_document:
  "initWebGl (VBool False) w VNull = Inr (VNull, w) \<and> module_init None w = Inl TypeError"
  by (simp add: initWebGl_def module_init_def probe_canvas_def initCanvas_def isWebGl_def
      call_getExtension_def)

theorem module_init_without_document_witness:
  "initWebGl (VBool False) canvas_world VNull = Inr (VNull, canvas_world) \<and>
   module_init None canvas_world = Inl TypeError"
  by (rule module_init_without_document)

section \<open>Properties of validateKernelObj\<close>





text \<open>
  C8: validateKernelObj raises the null-descriptor error on \<^verbatim>\<open>null\<close>, the
  malformed-descriptor error on a text that JSON.parse rejects, the null-descriptor
  error on a text that decodes to \<^verbatim>\<open>null\<close>, and returns a valid descriptor: the object
  given, with the heap unchanged, or the object decoded from the text.
\<close>

theorem validateKernelObj_results:
  "validateKernelObj rt h VNull = Inl (Thrown ''KernelObj being validated is NULL'') \<and>
   (json_parse rt h s = None \<longrightarrow>
      validateKernelObj rt h (VStr s) = Inl (Thrown ''Failed to convert KernelObj from JSON string'')) \<and>
   (json_parse rt h s = Some (VNull, h1) \<longrightarrow>
      validateKernelObj rt h (VStr s) =
        Inl (Thrown ''Invalid (NULL) KernelObj JSON string representation'')) \<and>
   (a < length h \<and> loose_eq_true rt h (get_prop h a ''isKernelObj'') = Inr True \<longrightarrow>
      validateKernelObj rt h (VRef a) = Inr (VRef a, h)) \<and>
   (json_parse rt h s = Some (VRef a, h1) \<and> a < length h1 \<and>
    loose_eq_true rt h1 (get_prop h1 a ''isKernelObj'') = Inr True \<longrightarrow>
      validateKernelObj rt h (VStr s) = Inr (VRef a, h1))"
  by (auto simp: validateKernelObj_def is_nullish_def check_flag_def)

theorem validateKernelObj_results_witness:
  "validateKernelObj sample_runtime [] VNull = Inl (Thrown ''KernelObj being validated is NULL'') \<and>
   json_parse sample_runtime [] ''{not json'' = None \<and>
   validateKernelObj sample_runtime [] (VStr ''{not json'') =
     Inl (Thrown ''Failed to convert KernelObj from JSON string'') \<and>
   json_parse sample_runtime [] ''null'' = Some (VNull, []) \<and>
   validateKernelObj sample_runtime [] (VStr ''null'') =
     Inl (Thrown ''Invalid (NULL) KernelObj JSON string representation'') \<and>
   loose_eq_true sample_runtime (flag_heap (VBool True))
     (get_prop (flag_heap (VBool True)) 0 ''isKernelObj'') = Inr True \<and>
   validateKernelObj sample_runtime (flag_heap (VBool True)) (VRef 0) =
     Inr (VRef 0, flag_heap (VBool True)) \<and>
   json_parse sample_runtime [] ''{\"isKernelObj\":true}'' = Some (VRef 0, flag_heap (VBool True)) \<and>
   validateKernelObj sample_runtime [] (VStr ''{\"isKernelObj\":true}'') =
     Inr (VRef 0, flag_heap (VBool True))"
proof -
  have p1: "json_parse sample_runtime [] ''{not json'' = None"
    by (simp add: sample_runtime_def)
  have p2: "json_parse sample_runtime [] ''null'' = Some (VNull, [])"
    by (simp add: sample_runtime_def)
  have p3: "json_parse sample_runtime [] ''{\"isKernelObj\":true}'' = Some (VRef 0, flag_heap (VBool True))"
    by (simp add: sample_runtime_def flag_heap_def)
  have l: "0 < length (flag_heap (VBool True))" by (simp add: flag_heap_def)
  have f: "loose_eq_true sample_runtime (flag_heap (VBool True))
     (get_prop (flag_heap (VBool True)) 0 ''isKernelObj'') = Inr True"
    by (simp add: flag_heap_def get_prop_def)
  from validateKernelObj_results [of sample_runtime "[]" "''{not json''" "[]" 0]
    validateKernelObj_results [of sample_runtime "[]" "''null''" "[]" 0]
    validateKernelObj_results [of sample_runtime "flag_heap (VBool True)" "''null''" "[]" 0]
    validateKernelObj_results [of sample_runtime "[]" "''{\"isKernelObj\":true}''" "flag_heap (VBool True)" 0]
    p1 p2 p3 l f
  show ?thesis by simp
qed

end
